theory Spec2Isabelle
  imports Main "HOL-Library.Sublist" "HOL-Library.Multiset"
begin

section \<open>The project scaffolding script \<open>setup.py\<close>\<close>

text \<open>
  The script creates a fixed list of directories below the current working directory
  with \<open>os.makedirs(full_path, exist_ok=True)\<close>, printing one line per directory, and
  then runs \<open>npm install\<close> through \<open>subprocess.run(..., check=True)\<close>. Its only
  handler catches \<open>subprocess.CalledProcessError\<close>.

  The script is a sequence of calls into the operating system, so the embedding
  threads a \<open>world\<close> through it: the file system below the working directory and the
  trace of what the script has done so far. The calls into the Python library
  (\<open>os.mkdir\<close>, \<open>os.makedirs\<close>, \<open>os.path.exists\<close>, \<open>os.path.isdir\<close>,
  \<open>subprocess.run\<close>) are modelled after the library's documented behaviour; the
  child process itself is a parameter of the model.
\<close>

subsection \<open>The file system below the working directory\<close>

text \<open>
  A path is the list of its components relative to the working directory; \<open>[]\<close> is
  the working directory itself. A directory carries one permission bit: whether the
  process may create entries in it.
\<close>

datatype node = File | Dir bool

type_synonym path = "string list"

type_synonym fs = "path \<Rightarrow> node option"

text \<open>
  A well-formed file system is a tree hanging from the working directory: the working
  directory is a directory, and whatever exists lies in a directory.
\<close>

definition wf_fs :: "fs \<Rightarrow> bool" where
  "wf_fs t \<longleftrightarrow>
     (\<exists>w. t [] = Some (Dir w)) \<and>
     (\<forall>p. p \<noteq> [] \<and> t p \<noteq> None \<longrightarrow> (\<exists>w. t (butlast p) = Some (Dir w)))"

definition empty_base :: fs where
  "empty_base = Map.empty([] \<mapsto> Dir True)"

text \<open>The errors of the operating system that reach Python as subclasses of \<open>OSError\<close>.\<close>

datatype oserror = FileExistsError | FileNotFoundError | NotADirectoryError | PermissionError

text \<open>\<open>os.path.exists\<close> and \<open>os.path.isdir\<close>.\<close>

definition path_exists :: "fs \<Rightarrow> path \<Rightarrow> bool" where
  "path_exists t p \<longleftrightarrow> t p \<noteq> None"

definition isdir :: "fs \<Rightarrow> path \<Rightarrow> bool" where
  "isdir t p = (case t p of Some (Dir w) \<Rightarrow> True | _ \<Rightarrow> False)"

text \<open>
  \<open>os.mkdir\<close>: the parent must exist and be a directory, the name must be free, and the
  parent must be writable. A new directory is writable by the process that made it.
\<close>

definition mkdir :: "fs \<Rightarrow> path \<Rightarrow> oserror + fs" where
  "mkdir t p =
     (case t (butlast p) of
        None \<Rightarrow> Inl FileNotFoundError
      | Some File \<Rightarrow> Inl NotADirectoryError
      | Some (Dir w) \<Rightarrow>
          (case t p of
             Some n \<Rightarrow> Inl FileExistsError
           | None \<Rightarrow> if w then Inr (t(p \<mapsto> Dir True)) else Inl PermissionError))"

text \<open>
  \<open>os.makedirs(name, exist_ok=True)\<close>, after the library's source:
  \<^verbatim>\<open>
  head, tail = path.split(name)
  if head and tail and not path.exists(head):
      try:
          makedirs(head, exist_ok=exist_ok)
      except FileExistsError:
          pass
  try:
      mkdir(name, mode)
  except OSError:
      if not exist_ok or not path.isdir(name):
          raise
  \<close>
  \<open>head\<close> is \<open>butlast name\<close> and \<open>tail\<close> is \<open>last name\<close>. The result pairs what the
  call did (\<open>Inl e\<close>: it raised \<open>e\<close>) with the file system it left.
\<close>

function makedirs :: "fs \<Rightarrow> path \<Rightarrow> (oserror + unit) \<times> fs" where
  "makedirs t name =
     (let head = butlast name;
          (r, t1) =
            (if name \<noteq> [] \<and> \<not> path_exists t head
             then (case makedirs t head of
                     (Inl FileExistsError, t') \<Rightarrow> (Inr (), t')
                   | other \<Rightarrow> other)
             else (Inr (), t))
      in case r of
           Inl e \<Rightarrow> (Inl e, t1)
         | Inr u \<Rightarrow>
             (case mkdir t1 name of
                Inr t2 \<Rightarrow> (Inr (), t2)
              | Inl e \<Rightarrow> if isdir t1 name then (Inr (), t1) else (Inl e, t1)))"
  by pat_completeness auto
termination
  by (relation "measure (\<lambda>(t, name). length name)") auto

declare makedirs.simps [simp del]

subsection \<open>Paths as the script writes them\<close>

text \<open>
  The script joins the working directory and a relative path written with \<open>/\<close>;
  \<open>components\<close> gives the key of that path in the file system.
\<close>

fun split_slash :: "string \<Rightarrow> string list" where
  "split_slash [] = [[]]"
| "split_slash (c # cs) =
     (if c = CHR ''/'' then [] # split_slash cs
      else (case split_slash cs of
              [] \<Rightarrow> [[c]]
            | x # xs \<Rightarrow> (c # x) # xs))"

definition components :: "string \<Rightarrow> path" where
  "components s = filter (\<lambda>x. x \<noteq> []) (split_slash s)"

subsection \<open>Child processes\<close>

text \<open>
  What the operating system does with an argument vector: the executable is not found,
  or the child runs, may change the file system, and ends with a return code (negative
  when a signal ended it).
\<close>

datatype child = NotFound | Exited int

record env =
  spawn :: "string list \<Rightarrow> fs \<Rightarrow> child \<times> fs"
  signal_name :: "nat \<Rightarrow> string option"

datatype exn = OSError oserror | CalledProcessError int "string list"

subsection \<open>The trace and the world\<close>

datatype event =
    Makedirs string
  | Print string
  | Run "string list"

record world =
  files :: fs
  trace :: "event list"

definition emit :: "event \<Rightarrow> world \<Rightarrow> world" where
  "emit e w = w\<lparr>trace := trace w @ [e]\<rparr>"

definition print :: "string \<Rightarrow> world \<Rightarrow> world" where
  "print s w = emit (Print s) w"

text \<open>
  \<open>subprocess.run(argv, check=True)\<close>: launching fails with \<open>FileNotFoundError\<close> when
  the executable is missing; a nonzero return code raises \<open>CalledProcessError\<close>.
\<close>

definition subprocess_run :: "env \<Rightarrow> string list \<Rightarrow> world \<Rightarrow> (exn + unit) \<times> world" where
  "subprocess_run E argv w =
     (let w1 = emit (Run argv) w in
      case spawn E argv (files w1) of
        (NotFound, t) \<Rightarrow> (Inl (OSError FileNotFoundError), w1)
      | (Exited rc, t) \<Rightarrow>
          (if rc \<noteq> 0 then Inl (CalledProcessError rc argv) else Inr (), w1\<lparr>files := t\<rparr>))"

subsection \<open>The text of \<open>CalledProcessError\<close>\<close>

definition digit_char :: "nat \<Rightarrow> char" where
  "digit_char n = ''0123456789'' ! n"

function str_nat :: "nat \<Rightarrow> string" where
  "str_nat n = (if n < 10 then [digit_char n] else str_nat (n div 10) @ [digit_char (n mod 10)])"
  by pat_completeness auto
termination
  by (relation "measure id") auto

declare str_nat.simps [simp del]

definition quote :: string where
  "quote = [CHR 0x27]"

definition repr_str :: "string \<Rightarrow> string" where
  "repr_str s = quote @ s @ quote"

fun join_comma :: "string list \<Rightarrow> string" where
  "join_comma [] = []"
| "join_comma [x] = x"
| "join_comma (x # y # ys) = x @ '', '' @ join_comma (y # ys)"

definition repr_list :: "string list \<Rightarrow> string" where
  "repr_list xs = ''['' @ join_comma (map repr_str xs) @ '']''"

text \<open>
  \<^verbatim>\<open>
  if self.returncode and self.returncode < 0:
      try:
          return "Command '%s' died with %r." % (self.cmd, signal.Signals(-self.returncode))
      except ValueError:
          return "Command '%s' died with unknown signal %d." % (self.cmd, -self.returncode)
  else:
      return "Command '%s' returned non-zero exit status %d." % (self.cmd, self.returncode)
  \<close>
\<close>

definition str_CalledProcessError :: "env \<Rightarrow> int \<Rightarrow> string list \<Rightarrow> string" where
  "str_CalledProcessError E rc cmd =
     (if rc < 0 then
        (case signal_name E (nat (- rc)) of
           Some s \<Rightarrow>
             ''Command '' @ quote @ repr_list cmd @ quote @ '' died with <Signals.'' @ s @
             '': '' @ str_nat (nat (- rc)) @ ''>.''
         | None \<Rightarrow>
             ''Command '' @ quote @ repr_list cmd @ quote @ '' died with unknown signal '' @
             str_nat (nat (- rc)) @ ''.'')
      else
        ''Command '' @ quote @ repr_list cmd @ quote @ '' returned non-zero exit status '' @
        str_nat (nat rc) @ ''.'')"

subsection \<open>The script\<close>

definition dirs :: "string list" where
  "dirs =
     [''src/app/api/ai/chat'',
      ''src/app/api/ai/generate'',
      ''src/app/api/ai/summarize'',
      ''src/app/blog/[slug]'',
      ''src/components/ui'',
      ''src/components/blog'',
      ''src/components/ai'',
      ''src/lib/firebase'',
      ''src/lib/openai'',
      ''src/types'',
      ''src/utils'',
      ''content/posts'',
      ''tests/unit'',
      ''tests/e2e'',
      ''.github/workflows'',
      ''public/images'']"

definition created_line :: "string \<Rightarrow> string" where
  "created_line dir_path = ''  Created: '' @ dir_path"

text \<open>
  The loop
  \<^verbatim>\<open>
  for dir_path in dirs:
      full_path = os.path.join(os.getcwd(), dir_path)
      os.makedirs(full_path, exist_ok=True)
      print(f'  Created: {dir_path}')
  \<close>
  An exception of \<open>os.makedirs\<close> leaves the loop at once.
\<close>

fun create_dirs :: "world \<Rightarrow> string list \<Rightarrow> (oserror + unit) \<times> world" where
  "create_dirs w [] = (Inr (), w)"
| "create_dirs w (dir_path # rest) =
     (case makedirs (files w) (components dir_path) of
        (Inl e, t) \<Rightarrow> (Inl e, w\<lparr>files := t\<rparr>)
      | (Inr u, t) \<Rightarrow>
          create_dirs (print (created_line dir_path) (emit (Makedirs dir_path) (w\<lparr>files := t\<rparr>))) rest)"

text \<open>How the interpreter ends: the script ran to its end, called \<open>exit\<close>, or an
  exception nobody caught ended it with a traceback.\<close>

datatype ending = Completed | SystemExit int | Traceback exn

fun exit_status :: "ending \<Rightarrow> int" where
  "exit_status Completed = 0"
| "exit_status (SystemExit n) = n"
| "exit_status (Traceback e) = 1"

definition newline :: string where
  "newline = [CHR 0x0A]"

text \<open>
  The body of the script, with the directory list as a parameter:
  \<^verbatim>\<open>
  print('Creating project structure...')
  for dir_path in dirs: ...
  print('\nStructure created successfully!')
  print('Installing dependencies...\n')
  try:
      subprocess.run(['npm', 'install'], check=True)
      print('\nProject setup complete!')
  except subprocess.CalledProcessError as e:
      print(f'Error installing dependencies: {e}')
      exit(1)
  \<close>
\<close>

definition npm_install :: "string list" where
  "npm_install = [''npm'', ''install'']"

definition ensure_structure :: "string list \<Rightarrow> fs \<Rightarrow> (oserror + unit) \<times> world" where
  "ensure_structure ds t0 =
     create_dirs (print ''Creating project structure...'' \<lparr>files = t0, trace = []\<rparr>) ds"

definition script :: "env \<Rightarrow> string list \<Rightarrow> fs \<Rightarrow> ending \<times> world" where
  "script E ds t0 =
     (case ensure_structure ds t0 of
        (Inl e, w1) \<Rightarrow> (Traceback (OSError e), w1)
      | (Inr u, w1) \<Rightarrow>
          (let w2 = print (newline @ ''Structure created successfully!'') w1;
               w3 = print (''Installing dependencies...'' @ newline) w2
           in case subprocess_run E npm_install w3 of
                (Inr u, w4) \<Rightarrow> (Completed, print (newline @ ''Project setup complete!'') w4)
              | (Inl (CalledProcessError rc cmd), w4) \<Rightarrow>
                  (SystemExit 1,
                   print (''Error installing dependencies: '' @ str_CalledProcessError E rc cmd) w4)
              | (Inl (OSError e), w4) \<Rightarrow> (Traceback (OSError e), w4)))"

definition setup_py :: "env \<Rightarrow> fs \<Rightarrow> ending \<times> world" where
  "setup_py E t0 = script E dirs t0"

subsection \<open>Notions the properties are stated with\<close>

text \<open>The listed directories together with all their ancestors, the working directory
  included.\<close>

definition tree_of :: "string list \<Rightarrow> path set" where
  "tree_of ds = {q. \<exists>d\<in>set ds. prefix q (components d)}"

text \<open>The file system with the missing members of \<open>S\<close> added as fresh directories.\<close>

definition with_dirs :: "fs \<Rightarrow> path set \<Rightarrow> fs" where
  "with_dirs t S = (\<lambda>q. if q \<in> S \<and> t q = None then Some (Dir True) else t q)"

text \<open>
  \<open>creatable t p\<close>: nothing on the way to \<open>p\<close> is a regular file, and where the existing
  part of the way ends, the last existing directory is writable.
\<close>

definition creatable :: "fs \<Rightarrow> path \<Rightarrow> bool" where
  "creatable t p \<longleftrightarrow>
     (\<forall>q. prefix q p \<longrightarrow> t q \<noteq> Some File) \<and>
     (\<forall>q. prefix q p \<and> t q = None \<longrightarrow> t (butlast q) \<noteq> Some (Dir False))"

text \<open>The events of one pass of the loop over the first \<open>k\<close> directories.\<close>

definition progress :: "string list \<Rightarrow> event list" where
  "progress ds = concat (map (\<lambda>d. [Makedirs d, Print (created_line d)]) ds)"

fun is_Run :: "event \<Rightarrow> bool" where
  "is_Run (Run argv) = True"
| "is_Run e = False"

text \<open>What the script itself put on the trace after it invoked a child process.\<close>

definition after_run :: "event list \<Rightarrow> event list" where
  "after_run tr = tl (dropWhile (\<lambda>e. \<not> is_Run e) tr)"

text \<open>Installers to run the script against: one that ends with a given return code and
  leaves the file system alone, and one that is not installed.\<close>

definition installer_exits :: "int \<Rightarrow> env" where
  "installer_exits rc = \<lparr>spawn = (\<lambda>argv t. (Exited rc, t)), signal_name = (\<lambda>n. None)\<rparr>"

definition installer_missing :: env where
  "installer_missing = \<lparr>spawn = (\<lambda>argv t. (NotFound, t)), signal_name = (\<lambda>n. None)\<rparr>"


section \<open>Properties of the library model\<close>

lemma wf_empty_base: "wf_fs empty_base"
  by (auto simp: wf_fs_def empty_base_def)

lemma wf_root: "wf_fs t \<Longrightarrow> \<exists>w. t [] = Some (Dir w)"
  by (simp add: wf_fs_def)

lemma wf_parent: "wf_fs t \<Longrightarrow> t (h @ [c]) \<noteq> None \<Longrightarrow> \<exists>w. t h = Some (Dir w)"
  unfolding wf_fs_def by (metis butlast_snoc snoc_eq_iff_butlast)

lemma wf_prefix_dir:
  "wf_fs t \<Longrightarrow> t p \<noteq> None \<Longrightarrow> strict_prefix q p \<Longrightarrow> \<exists>w. t q = Some (Dir w)"
proof (induction p rule: rev_induct)
  case Nil
  then show ?case by simp
next
  case (snoc c h)
  from snoc.prems(1,2) obtain w where h: "t h = Some (Dir w)"
    using wf_parent by blast
  from snoc.prems(3) have "prefix q h"
    by (auto simp: strict_prefix_def)
  then show ?case
  proof (cases "q = h")
    case True
    with h show ?thesis by simp
  next
    case False
    with \<open>prefix q h\<close> have "strict_prefix q h" by (simp add: strict_prefix_def)
    with snoc.IH snoc.prems(1) h show ?thesis by simp
  qed
qed

lemma creatable_prefix: "creatable t p \<Longrightarrow> prefix q p \<Longrightarrow> creatable t q"
  unfolding creatable_def by (meson prefix_order.trans)

lemma creatable_Nil: "wf_fs t \<Longrightarrow> creatable t []"
  by (auto simp: creatable_def dest: wf_root)

lemma makedirs_Nil: "wf_fs t \<Longrightarrow> makedirs t [] = (Inr (), t)"
  by (auto simp: makedirs.simps[of t "[]"] mkdir_def isdir_def dest!: wf_root)

lemma makedirs_snoc:
  "makedirs t (h @ [c]) =
     (case (if \<not> path_exists t h
            then (case makedirs t h of
                    (Inl FileExistsError, t') \<Rightarrow> (Inr (), t')
                  | other \<Rightarrow> other)
            else (Inr (), t)) of
        (Inl e, t1) \<Rightarrow> (Inl e, t1)
      | (Inr u, t1) \<Rightarrow>
            (case mkdir t1 (h @ [c]) of
               Inr t2 \<Rightarrow> (Inr (), t2)
             | Inl e \<Rightarrow> if isdir t1 (h @ [c]) then (Inr (), t1) else (Inl e, t1)))"
  by (subst makedirs.simps) (simp add: Let_def split: prod.splits sum.splits)

lemma prefix_snoc_cases: "prefix q (h @ [c]) \<longleftrightarrow> q = h @ [c] \<or> prefix q h"
  by simp

lemma with_dirs_apply_old: "t q \<noteq> None \<Longrightarrow> with_dirs t S q = t q"
  by (simp add: with_dirs_def)

lemma with_dirs_existing:
  assumes "\<forall>q\<in>S. t q \<noteq> None"
  shows "with_dirs t S = t"
  using assms by (auto simp: with_dirs_def fun_eq_iff)

lemma makedirs_existing_head:
  assumes "t h \<noteq> None"
  shows "makedirs t (h @ [c]) =
           (case mkdir t (h @ [c]) of
              Inr t2 \<Rightarrow> (Inr (), t2)
            | Inl e \<Rightarrow> if isdir t (h @ [c]) then (Inr (), t) else (Inl e, t))"
  using assms by (simp add: makedirs_snoc path_exists_def)

text \<open>What \<open>os.makedirs\<close> does on a well-formed file system.\<close>

lemma makedirs_wf:
  assumes "wf_fs t"
  shows "(creatable t p \<longrightarrow> makedirs t p = (Inr (), with_dirs t {q. prefix q p})) \<and>
         (\<not> creatable t p \<longrightarrow>
            (\<exists>e. makedirs t p = (Inl e, t) \<and> (e = FileExistsError \<longrightarrow> t p = Some File)))"
proof (induction p rule: rev_induct)
  case Nil
  from assms obtain w where "t [] = Some (Dir w)" using wf_root by blast
  then show ?case
    using assms by (simp add: makedirs_Nil creatable_Nil with_dirs_def fun_eq_iff)
next
  case (snoc c h)
  let ?p = "h @ [c]"
  show ?case
  proof (cases "t h")
    case None
    then have tp: "t ?p = None" using assms wf_parent by fastforce
    show ?thesis
    proof (cases "creatable t h")
      case True
      with snoc have mh: "makedirs t h = (Inr (), with_dirs t {q. prefix q h})" by simp
      let ?t1 = "with_dirs t {q. prefix q h}"
      have t1h: "?t1 h = Some (Dir True)" using None by (simp add: with_dirs_def)
      have t1p: "?t1 ?p = None" using tp by (simp add: with_dirs_def)
      have mk: "mkdir ?t1 ?p = Inr (?t1(?p \<mapsto> Dir True))"
        using t1h t1p by (simp add: mkdir_def)
      have eq: "?t1(?p \<mapsto> Dir True) = with_dirs t {q. prefix q ?p}"
        using tp by (auto simp: with_dirs_def fun_eq_iff)
      have cr: "creatable t ?p"
        using True None tp unfolding creatable_def by (auto simp: None)
      have "makedirs t ?p = (Inr (), with_dirs t {q. prefix q ?p})"
        using None mh mk eq by (simp add: makedirs_snoc path_exists_def)
      with cr show ?thesis by simp
    next
      case False
      with snoc obtain e where mh: "makedirs t h = (Inl e, t)" and e: "e \<noteq> FileExistsError"
        using None by auto
      have ncr: "\<not> creatable t ?p" using False creatable_prefix[of t ?p h] by auto
      have "makedirs t ?p = (Inl e, t)"
        using None mh e by (simp add: makedirs_snoc path_exists_def split: oserror.splits)
      with ncr e show ?thesis by simp
    qed
  next
    case (Some n)
    then have ex: "t h \<noteq> None" by simp
    have anc: "\<And>q. prefix q h \<Longrightarrow> q \<noteq> h \<Longrightarrow> \<exists>w. t q = Some (Dir w)"
      using wf_prefix_dir[OF assms ex] by (simp add: strict_prefix_def)
    show ?thesis
    proof (cases n)
      case File
      with Some have th: "t h = Some File" by simp
      then have tp: "t ?p = None" using assms wf_parent by fastforce
      have ncr: "\<not> creatable t ?p" using th unfolding creatable_def by (auto intro: exI[of _ h])
      have "makedirs t ?p = (Inl NotADirectoryError, t)"
        using th tp by (simp add: makedirs_existing_head[of t h c, OF ex] mkdir_def isdir_def)
      with ncr show ?thesis by simp
    next
      case (Dir w)
      with Some have th: "t h = Some (Dir w)" by simp
      have pre: "\<exists>w'. t q = Some (Dir w')" if "prefix q h" for q
        using that anc[of q] th by (cases "q = h") auto
      have pre_ok: "t q \<noteq> Some File \<and> t q \<noteq> None" if "prefix q h" for q
        using pre[OF that] by auto
      show ?thesis
      proof (cases "t ?p")
        case None
        show ?thesis
        proof (cases w)
          case True
          have cr: "creatable t ?p"
            unfolding creatable_def using th True None pre_ok by fastforce
          have eq: "t(?p \<mapsto> Dir True) = with_dirs t {q. prefix q ?p}"
            using None pre_ok by (auto simp: with_dirs_def fun_eq_iff)
          have "makedirs t ?p = (Inr (), t(?p \<mapsto> Dir True))"
            using th None True by (simp add: makedirs_existing_head[of t h c, OF ex] mkdir_def)
          with cr eq show ?thesis by simp
        next
          case False
          have ncr: "\<not> creatable t ?p"
            unfolding creatable_def using th False None by (auto intro: exI[of _ ?p])
          have "makedirs t ?p = (Inl PermissionError, t)"
            using th None False by (simp add: makedirs_existing_head[of t h c, OF ex] mkdir_def isdir_def)
          with ncr show ?thesis by simp
        qed
      next
        case (Some m)
        show ?thesis
        proof (cases m)
          case File
          with Some have tp: "t ?p = Some File" by simp
          have ncr: "\<not> creatable t ?p"
            unfolding creatable_def using tp by (auto intro: exI[of _ ?p])
          have "makedirs t ?p = (Inl FileExistsError, t)"
            using th tp by (simp add: makedirs_existing_head[of t h c, OF ex] mkdir_def isdir_def)
          with ncr tp show ?thesis by simp
        next
          case (Dir w')
          with Some have tp: "t ?p = Some (Dir w')" by simp
          have cr: "creatable t ?p"
            unfolding creatable_def using tp pre_ok by fastforce
          have eq: "with_dirs t {q. prefix q ?p} = t"
            using tp pre_ok by (intro with_dirs_existing) auto
          have "makedirs t ?p = (Inr (), t)"
            using th tp by (simp add: makedirs_existing_head[of t h c, OF ex] mkdir_def isdir_def)
          with cr eq show ?thesis by simp
        qed
      qed
    qed
  qed
qed


lemma makedirs_ok:
  "wf_fs t \<Longrightarrow> creatable t p \<Longrightarrow> makedirs t p = (Inr (), with_dirs t {q. prefix q p})"
  using makedirs_wf by blast

lemma makedirs_fail:
  "wf_fs t \<Longrightarrow> \<not> creatable t p \<Longrightarrow> \<exists>e. makedirs t p = (Inl e, t)"
  using makedirs_wf by blast

lemma with_dirs_twice: "with_dirs (with_dirs t A) B = with_dirs t (A \<union> B)"
  by (auto simp: with_dirs_def fun_eq_iff)

lemma with_dirs_empty: "with_dirs t {} = t"
  by (simp add: with_dirs_def)

lemma tree_of_Nil: "tree_of [] = {}"
  by (simp add: tree_of_def)

lemma tree_of_Cons: "tree_of (d # ds) = {q. prefix q (components d)} \<union> tree_of ds"
  by (auto simp: tree_of_def)

lemma tree_of_set: "set ds = set ds' \<Longrightarrow> tree_of ds = tree_of ds'"
  by (simp add: tree_of_def)

lemma wf_with_dirs:
  assumes "wf_fs t" and "creatable t p"
  shows "wf_fs (with_dirs t {q. prefix q p})"
  unfolding wf_fs_def
proof (intro conjI allI impI)
  show "\<exists>w. with_dirs t {q. prefix q p} [] = Some (Dir w)"
    using assms(1) by (auto simp: with_dirs_def dest: wf_root)
next
  fix q
  assume q: "q \<noteq> [] \<and> with_dirs t {q. prefix q p} q \<noteq> None"
  then obtain h c where qs: "q = h @ [c]" by (metis rev_exhaust)
  show "\<exists>w. with_dirs t {q. prefix q p} (butlast q) = Some (Dir w)"
  proof (cases "t q")
    case (Some n)
    then obtain w where "t h = Some (Dir w)"
      using wf_parent[OF assms(1), of h c] qs by auto
    then show ?thesis by (auto simp: qs with_dirs_def)
  next
    case None
    with q have pq: "prefix q p" by (auto simp: with_dirs_def split: if_splits)
    then have ph: "prefix h p" using qs by (metis prefix_order.trans prefixI)
    with assms(2) have nf: "t h \<noteq> Some File" by (auto simp: creatable_def)
    show ?thesis
    proof (cases "t h")
      case None
      with ph show ?thesis by (auto simp: qs with_dirs_def)
    next
      case (Some m)
      with nf obtain w where "t h = Some (Dir w)" by (cases m) auto
      then show ?thesis by (auto simp: qs with_dirs_def)
    qed
  qed
qed

lemma creatable_with_dirs:
  assumes "creatable t a"
  shows "creatable (with_dirs t {q. prefix q a}) b \<longleftrightarrow> creatable t b"
proof
  assume L: "creatable (with_dirs t {q. prefix q a}) b"
  show "creatable t b"
    unfolding creatable_def
  proof (intro conjI allI impI)
    fix q assume "prefix q b"
    with L have "with_dirs t {q. prefix q a} q \<noteq> Some File" by (auto simp: creatable_def)
    then show "t q \<noteq> Some File" by (auto simp: with_dirs_def split: if_splits)
  next
    fix q assume q: "prefix q b \<and> t q = None"
    show "t (butlast q) \<noteq> Some (Dir False)"
    proof
      assume bad: "t (butlast q) = Some (Dir False)"
      then have keep: "with_dirs t {q. prefix q a} (butlast q) = Some (Dir False)"
        by (simp add: with_dirs_def)
      show False
      proof (cases "prefix q a")
        case True
        with assms q bad show False by (auto simp: creatable_def)
      next
        case False
        with q have "with_dirs t {q. prefix q a} q = None" by (simp add: with_dirs_def)
        with L q keep show False by (auto simp: creatable_def)
      qed
    qed
  qed
next
  assume R: "creatable t b"
  show "creatable (with_dirs t {q. prefix q a}) b"
    unfolding creatable_def
  proof (intro conjI allI impI)
    fix q assume "prefix q b"
    with R have "t q \<noteq> Some File" by (auto simp: creatable_def)
    then show "with_dirs t {q. prefix q a} q \<noteq> Some File" by (simp add: with_dirs_def)
  next
    fix q assume q: "prefix q b \<and> with_dirs t {q. prefix q a} q = None"
    then have tq: "t q = None" by (auto simp: with_dirs_def split: if_splits)
    with R q have "t (butlast q) \<noteq> Some (Dir False)" by (auto simp: creatable_def)
    then show "with_dirs t {q. prefix q a} (butlast q) \<noteq> Some (Dir False)"
      by (simp add: with_dirs_def)
  qed
qed

lemma progress_Nil: "progress [] = []"
  by (simp add: progress_def)

lemma progress_Cons: "progress (d # ds) = Makedirs d # Print (created_line d) # progress ds"
  by (simp add: progress_def)

text \<open>The loop, on any file system: what it leaves on the trace.\<close>

lemma create_dirs_trace:
  "create_dirs w ds = (r, w') \<Longrightarrow>
     \<exists>k\<le>length ds. trace w' = trace w @ progress (take k ds) \<and> (r = Inr () \<longleftrightarrow> k = length ds)"
proof (induction ds arbitrary: w)
  case Nil
  then show ?case by (auto simp: progress_Nil)
next
  case (Cons d ds)
  obtain r1 t1 where m: "makedirs (files w) (components d) = (r1, t1)" by (cases "makedirs (files w) (components d)")
  show ?case
  proof (cases r1)
    case (Inl e)
    with Cons.prems m have "r = Inl e" "trace w' = trace w" by auto
    then show ?thesis by (intro exI[of _ 0]) (simp add: progress_Nil)
  next
    case (Inr u)
    let ?w1 = "print (created_line d) (emit (Makedirs d) (w\<lparr>files := t1\<rparr>))"
    from Cons.prems m Inr have "create_dirs ?w1 ds = (r, w')" by simp
    from Cons.IH[OF this] obtain k where k: "k \<le> length ds"
      "trace w' = trace ?w1 @ progress (take k ds)" "r = Inr () \<longleftrightarrow> k = length ds" by blast
    have "trace ?w1 = trace w @ [Makedirs d, Print (created_line d)]"
      by (simp add: print_def emit_def)
    with k show ?thesis
      by (intro exI[of _ "Suc k"]) (simp add: progress_Cons)
  qed
qed

text \<open>The loop on a well-formed file system.\<close>

lemma create_dirs_wf:
  assumes "wf_fs (files w)" and "create_dirs w ds = (r, w')"
  shows "\<exists>k\<le>length ds.
           (\<forall>d\<in>set (take k ds). creatable (files w) (components d)) \<and>
           (k < length ds \<longrightarrow> \<not> creatable (files w) (components (ds ! k))) \<and>
           files w' = with_dirs (files w) (tree_of (take k ds)) \<and>
           wf_fs (files w') \<and>
           trace w' = trace w @ progress (take k ds) \<and>
           (r = Inr () \<longleftrightarrow> k = length ds)"
  using assms
proof (induction ds arbitrary: w)
  case Nil
  then show ?case by (auto simp: progress_Nil tree_of_Nil with_dirs_empty)
next
  case (Cons d ds)
  let ?t = "files w" and ?p = "components d"
  show ?case
  proof (cases "creatable ?t ?p")
    case False
    with Cons.prems(1) obtain e where "makedirs ?t ?p = (Inl e, ?t)"
      using makedirs_fail by blast
    with Cons.prems have "r = Inl e" "w' = w\<lparr>files := ?t\<rparr>" by auto
    with False Cons.prems(1) show ?thesis
      by (intro exI[of _ 0]) (simp add: progress_Nil tree_of_Nil with_dirs_empty)
  next
    case True
    let ?t1 = "with_dirs ?t {q. prefix q ?p}"
    let ?w1 = "print (created_line d) (emit (Makedirs d) (w\<lparr>files := ?t1\<rparr>))"
    have m: "makedirs ?t ?p = (Inr (), ?t1)" using makedirs_ok[OF Cons.prems(1) True] .
    have f1: "files ?w1 = ?t1" by (simp add: print_def emit_def)
    have wf1: "wf_fs (files ?w1)" using wf_with_dirs[OF Cons.prems(1) True] f1 by simp
    from Cons.prems(2) m have "create_dirs ?w1 ds = (r, w')" by simp
    from Cons.IH[OF wf1 this] obtain k where k: "k \<le> length ds"
      "\<forall>d\<in>set (take k ds). creatable (files ?w1) (components d)"
      "k < length ds \<longrightarrow> \<not> creatable (files ?w1) (components (ds ! k))"
      "files w' = with_dirs (files ?w1) (tree_of (take k ds))"
      "wf_fs (files w')"
      "trace w' = trace ?w1 @ progress (take k ds)"
      "r = Inr () \<longleftrightarrow> k = length ds" by blast
    have tr: "trace ?w1 = trace w @ [Makedirs d, Print (created_line d)]"
      by (simp add: print_def emit_def)
    have cr: "creatable (files ?w1) b \<longleftrightarrow> creatable ?t b" for b
      using creatable_with_dirs[OF True] f1 by simp
    have "files w' = with_dirs ?t (tree_of (take (Suc k) (d # ds)))"
      using k(4) f1 by (simp add: with_dirs_twice tree_of_Cons)
    with k tr cr True show ?thesis
      by (intro exI[of _ "Suc k"]) (simp add: progress_Cons)
  qed
qed


section \<open>Properties of the script's phases\<close>

lemma create_dirs_ok:
  assumes "wf_fs (files w)" and "\<forall>d\<in>set ds. creatable (files w) (components d)"
  shows "create_dirs w ds =
           (Inr (), w\<lparr>files := with_dirs (files w) (tree_of ds), trace := trace w @ progress ds\<rparr>)"
  using assms
proof (induction ds arbitrary: w)
  case Nil
  then show ?case by (simp add: tree_of_Nil with_dirs_empty progress_Nil)
next
  case (Cons d ds)
  let ?t1 = "with_dirs (files w) {q. prefix q (components d)}"
  let ?w1 = "print (created_line d) (emit (Makedirs d) (w\<lparr>files := ?t1\<rparr>))"
  have cr: "creatable (files w) (components d)" using Cons.prems(2) by simp
  have m: "makedirs (files w) (components d) = (Inr (), ?t1)"
    using makedirs_ok[OF Cons.prems(1) cr] .
  have f1: "files ?w1 = ?t1" by (simp add: print_def emit_def)
  have wf1: "wf_fs (files ?w1)" using wf_with_dirs[OF Cons.prems(1) cr] f1 by simp
  have cr1: "\<forall>b\<in>set ds. creatable (files ?w1) (components b)"
    using Cons.prems(2) creatable_with_dirs[OF cr] f1 by simp
  show ?case
    using Cons.IH[OF wf1 cr1] m
    by (simp add: f1 with_dirs_twice tree_of_Cons progress_Cons print_def emit_def)
qed

lemma creatable_empty_base: "creatable empty_base p"
  by (simp add: creatable_def empty_base_def)

lemma ensure_structure_empty_base:
  "ensure_structure ds empty_base =
     (Inr (), \<lparr>files = with_dirs empty_base (tree_of ds),
               trace = Print ''Creating project structure...'' # progress ds\<rparr>)"
  unfolding ensure_structure_def
  by (subst create_dirs_ok) (simp_all add: print_def emit_def wf_empty_base creatable_empty_base)

lemma ensure_structure_trace:
  assumes "ensure_structure ds t0 = (r, w)"
  shows "\<exists>k\<le>length ds. trace w = Print ''Creating project structure...'' # progress (take k ds) \<and>
           (r = Inr () \<longleftrightarrow> k = length ds)"
  using create_dirs_trace[OF assms[unfolded ensure_structure_def]]
  by (simp add: print_def emit_def)

lemma no_Run_progress: "Run argv \<notin> set (progress ds)"
  by (induction ds) (simp_all add: progress_Nil progress_Cons)

lemma not_is_Run_progress: "e \<in> set (progress ds) \<Longrightarrow> \<not> is_Run e"
  by (induction ds) (auto simp: progress_Nil progress_Cons)

lemma script_raise:
  "ensure_structure ds t0 = (Inl e, w1) \<Longrightarrow> script E ds t0 = (Traceback (OSError e), w1)"
  by (simp add: script_def)

lemma script_proceed:
  assumes "ensure_structure ds t0 = (Inr (), w1)"
  shows "script E ds t0 =
    (case spawn E npm_install (files w1) of
       (NotFound, t) \<Rightarrow>
         (Traceback (OSError FileNotFoundError),
          w1\<lparr>trace := trace w1 @
             [Print (newline @ ''Structure created successfully!''),
              Print (''Installing dependencies...'' @ newline),
              Run npm_install]\<rparr>)
     | (Exited rc, t) \<Rightarrow>
         (if rc \<noteq> 0
          then (SystemExit 1,
             w1\<lparr>files := t, trace := trace w1 @
               [Print (newline @ ''Structure created successfully!''),
                Print (''Installing dependencies...'' @ newline),
                Run npm_install,
                Print (''Error installing dependencies: '' @ str_CalledProcessError E rc npm_install)]\<rparr>)
          else (Completed,
             w1\<lparr>files := t, trace := trace w1 @
               [Print (newline @ ''Structure created successfully!''),
                Print (''Installing dependencies...'' @ newline),
                Run npm_install,
                Print (newline @ ''Project setup complete!'')]\<rparr>)))"
  using assms
  by (simp add: script_def subprocess_run_def print_def emit_def Let_def
           split: prod.splits child.splits)


lemma ensure_structure_ok:
  assumes "wf_fs t0" and "\<forall>d\<in>set ds. creatable t0 (components d)"
  shows "ensure_structure ds t0 =
     (Inr (), \<lparr>files = with_dirs t0 (tree_of ds),
               trace = Print ''Creating project structure...'' # progress ds\<rparr>)"
  unfolding ensure_structure_def
  using assms by (subst create_dirs_ok) (simp_all add: print_def emit_def)

lemma ensure_structure_wf:
  assumes "wf_fs t0" and "ensure_structure ds t0 = (r, w)"
  shows "\<exists>k\<le>length ds.
           (\<forall>d\<in>set (take k ds). creatable t0 (components d)) \<and>
           (k < length ds \<longrightarrow> \<not> creatable t0 (components (ds ! k))) \<and>
           files w = with_dirs t0 (tree_of (take k ds)) \<and>
           wf_fs (files w) \<and>
           trace w = Print ''Creating project structure...'' # progress (take k ds) \<and>
           (r = Inr () \<longleftrightarrow> k = length ds)"
proof -
  let ?w0 = "print ''Creating project structure...'' \<lparr>files = t0, trace = []\<rparr>"
  have "wf_fs (files ?w0)" using assms(1) by (simp add: print_def emit_def)
  from create_dirs_wf[OF this assms(2)[unfolded ensure_structure_def]]
  show ?thesis by (simp add: print_def emit_def)
qed

lemma ensure_structure_succeeds_iff:
  assumes "wf_fs t0"
  shows "fst (ensure_structure ds t0) = Inr () \<longleftrightarrow> (\<forall>d\<in>set ds. creatable t0 (components d))"
proof
  assume L: "fst (ensure_structure ds t0) = Inr ()"
  obtain r w where rw: "ensure_structure ds t0 = (r, w)" by (cases "ensure_structure ds t0")
  from ensure_structure_wf[OF assms rw] L rw show "\<forall>d\<in>set ds. creatable t0 (components d)"
    by auto
next
  assume "\<forall>d\<in>set ds. creatable t0 (components d)"
  from ensure_structure_ok[OF assms this] show "fst (ensure_structure ds t0) = Inr ()" by simp
qed

lemma isdir_with_dirs:
  assumes "creatable t p" and "\<exists>d\<in>set ds. prefix p (components d)"
  shows "isdir (with_dirs t (tree_of ds)) p"
proof -
  have nf: "t p \<noteq> Some File" using assms(1) by (auto simp: creatable_def)
  have "p \<in> tree_of ds" using assms(2) by (simp add: tree_of_def)
  then show ?thesis using nf
    by (cases "t p") (auto simp: isdir_def with_dirs_def split: node.splits)
qed

lemma creatable_with_tree:
  assumes "\<forall>a\<in>set ds. creatable t (components a)"
  shows "creatable (with_dirs t (tree_of ds)) b \<longleftrightarrow> creatable t b"
  using assms
proof (induction ds arbitrary: t)
  case Nil
  then show ?case by (simp add: tree_of_Nil with_dirs_empty)
next
  case (Cons d ds)
  let ?t1 = "with_dirs t {q. prefix q (components d)}"
  have cr: "creatable t (components d)" using Cons.prems by simp
  have "\<forall>a\<in>set ds. creatable ?t1 (components a)"
    using Cons.prems creatable_with_dirs[OF cr] by simp
  from Cons.IH[OF this] show ?case
    using creatable_with_dirs[OF cr] by (simp add: tree_of_Cons with_dirs_twice)
qed

lemma run_position:
  assumes "\<forall>e\<in>set xs. \<not> is_Run e" and "\<forall>e\<in>set ys. \<not> is_Run e"
    and "xs @ Run a # ys = pre @ Run b # post"
  shows "pre = xs \<and> b = a \<and> post = ys"
  using assms
proof (induction xs arbitrary: pre)
  case Nil
  show ?case
  proof (cases pre)
    case Nil
    with Nil.prems show ?thesis by simp
  next
    case (Cons x pre')
    with Nil.prems(3) have "ys = pre' @ Run b # post" by simp
    with Nil.prems(2) show ?thesis by auto
  qed
next
  case (Cons x xs)
  show ?case
  proof (cases pre)
    case Nil
    with Cons.prems(1,3) show ?thesis by auto
  next
    case (Cons y pre')
    with Cons.prems have "xs @ Run a # ys = pre' @ Run b # post" "x = y" by auto
    with Cons.IH[of pre'] Cons.prems(1,2) Cons show ?thesis by simp
  qed
qed

lemma after_run_progress:
  "after_run (e # progress ds @ xs) = (if is_Run e then progress ds @ xs else after_run xs)"
proof -
  have "dropWhile (\<lambda>e. \<not> is_Run e) (progress ds @ xs) = dropWhile (\<lambda>e. \<not> is_Run e) xs"
    by (rule dropWhile_append2) (simp add: not_is_Run_progress)
  then show ?thesis by (simp add: after_run_def)
qed

lemma no_error_report_progress:
  "Print (''Error installing dependencies: '' @ s) \<notin> set (progress ds)"
  by (induction ds) (simp_all add: progress_Nil progress_Cons created_line_def)


section \<open>The claims\<close>

text \<open>A run against a working directory that holds a regular file named \<open>src\<close>: the first
  \<open>os.makedirs\<close> raises, and nothing has been printed but the heading.\<close>

lemma src_collision_run:
  "ensure_structure dirs (empty_base([''src''] \<mapsto> File)) =
     (Inl NotADirectoryError,
      \<lparr>files = empty_base([''src''] \<mapsto> File), trace = [Print ''Creating project structure...'']\<rparr>)"
  by (simp add: ensure_structure_def dirs_def components_def makedirs.simps path_exists_def
       mkdir_def isdir_def empty_base_def print_def emit_def)

text \<open>
  C5. An error of the operating system raised while the directories are created is caught
  nowhere: the script ends with a traceback for that very error, in the world the failing
  call left, with a nonzero exit status, and no child process was ever started.
\<close>

theorem filesystem_error_propagates:
  assumes "ensure_structure dirs t0 = (Inl e, w1)"
  shows "setup_py E t0 = (Traceback (OSError e), w1) \<and>
         exit_status (fst (setup_py E t0)) \<noteq> 0 \<and>
         (\<forall>argv. Run argv \<notin> set (trace (snd (setup_py E t0))))"
proof -
  have run: "setup_py E t0 = (Traceback (OSError e), w1)"
    using assms by (simp add: setup_py_def script_raise)
  from ensure_structure_trace[OF assms] obtain k where
    "trace w1 = Print ''Creating project structure...'' # progress (take k dirs)" by blast
  then have "\<forall>argv. Run argv \<notin> set (trace w1)" by (simp add: no_Run_progress)
  with run show ?thesis by simp
qed

text \<open>C5 at a working directory where \<open>src\<close> is a regular file.\<close>

theorem filesystem_error_propagates_witness:
  "ensure_structure dirs (empty_base([''src''] \<mapsto> File)) =
     (Inl NotADirectoryError,
      \<lparr>files = empty_base([''src''] \<mapsto> File), trace = [Print ''Creating project structure...'']\<rparr>) \<and>
   setup_py (installer_exits 0) (empty_base([''src''] \<mapsto> File)) =
     (Traceback (OSError NotADirectoryError),
      \<lparr>files = empty_base([''src''] \<mapsto> File), trace = [Print ''Creating project structure...'']\<rparr>) \<and>
   exit_status (fst (setup_py (installer_exits 0) (empty_base([''src''] \<mapsto> File)))) \<noteq> 0"
  using filesystem_error_propagates[OF src_collision_run, of "installer_exits 0"] src_collision_run
  by simp

text \<open>
  C10. When the directories were created and the installer's executable is not found,
  \<open>subprocess.run\<close> raises \<open>FileNotFoundError\<close>, which the handler for
  \<open>CalledProcessError\<close> does not catch: the script ends with a traceback and not through
  \<open>exit\<close>, the start of the child is the last thing on the trace, and the line
  \<open>Error installing dependencies: ...\<close> is never printed.
\<close>

theorem missing_installer_not_caught:
  assumes "ensure_structure dirs t0 = (Inr (), w1)"
    and "fst (spawn E npm_install (files w1)) = NotFound"
  shows "fst (setup_py E t0) = Traceback (OSError FileNotFoundError) \<and>
         (\<forall>n. fst (setup_py E t0) \<noteq> SystemExit n) \<and>
         last (trace (snd (setup_py E t0))) = Run npm_install \<and>
         after_run (trace (snd (setup_py E t0))) = [] \<and>
         (\<forall>s. Print (''Error installing dependencies: '' @ s) \<notin> set (trace (snd (setup_py E t0)))) \<and>
         files (snd (setup_py E t0)) = files w1"
proof -
  obtain t where sp: "spawn E npm_install (files w1) = (NotFound, t)"
    using assms(2) by (cases "spawn E npm_install (files w1)") auto
  from ensure_structure_trace[OF assms(1)] have
    tr: "trace w1 = Print ''Creating project structure...'' # progress dirs" by auto
  have run: "setup_py E t0 =
     (Traceback (OSError FileNotFoundError),
      w1\<lparr>trace := trace w1 @
         [Print (newline @ ''Structure created successfully!''),
          Print (''Installing dependencies...'' @ newline),
          Run npm_install]\<rparr>)"
    using script_proceed[OF assms(1), of E] sp by (simp add: setup_py_def)
  have ar: "after_run (trace (snd (setup_py E t0))) = []"
    unfolding run by (simp add: tr after_run_progress) (simp add: after_run_def)
  have ne: "\<forall>s. Print (''Error installing dependencies: '' @ s) \<notin> set (trace (snd (setup_py E t0)))"
    unfolding run using no_error_report_progress by (simp add: tr newline_def)
  show ?thesis using ar ne by (simp add: run)
qed

text \<open>C10 at an empty working directory with no installer on the path.\<close>

theorem missing_installer_not_caught_witness:
  "fst (spawn installer_missing npm_install (with_dirs empty_base (tree_of dirs))) = NotFound \<and>
   fst (setup_py installer_missing empty_base) = Traceback (OSError FileNotFoundError) \<and>
   last (trace (snd (setup_py installer_missing empty_base))) = Run npm_install"
proof -
  have h1: "ensure_structure dirs empty_base =
     (Inr (), \<lparr>files = with_dirs empty_base (tree_of dirs),
               trace = Print ''Creating project structure...'' # progress dirs\<rparr>)"
    by (rule ensure_structure_empty_base)
  have h2: "fst (spawn installer_missing npm_install
      (files \<lparr>files = with_dirs empty_base (tree_of dirs),
               trace = Print ''Creating project structure...'' # progress dirs\<rparr>)) = NotFound"
    by (simp add: installer_missing_def)
  from missing_installer_not_caught[OF h1 h2] h2 show ?thesis by simp
qed

text \<open>
  C2. When the directories were created and the installer ends with a nonzero return code,
  the script prints \<open>Error installing dependencies: ...\<close> as its last line and leaves
  through \<open>exit(1)\<close>, so its exit status is 1; it touches the file system no more, which
  stays exactly as the installer left it: nothing that was created is rolled back.
\<close>

theorem install_failure_exit_1:
  assumes "ensure_structure dirs t0 = (Inr (), w1)"
    and "spawn E npm_install (files w1) = (Exited rc, t)"
    and "rc \<noteq> 0"
  shows "fst (setup_py E t0) = SystemExit 1 \<and>
         exit_status (fst (setup_py E t0)) = 1 \<and>
         last (trace (snd (setup_py E t0))) =
           Print (''Error installing dependencies: '' @ str_CalledProcessError E rc npm_install) \<and>
         files (snd (setup_py E t0)) = t"
  using script_proceed[OF assms(1), of E] assms(2,3) by (simp add: setup_py_def)

text \<open>C2 at an empty working directory with an installer that ends with status 2 and
  changes no file.\<close>

theorem install_failure_exit_1_witness:
  "spawn (installer_exits 2) npm_install (with_dirs empty_base (tree_of dirs)) =
     (Exited 2, with_dirs empty_base (tree_of dirs)) \<and>
   exit_status (fst (setup_py (installer_exits 2) empty_base)) = 1 \<and>
   files (snd (setup_py (installer_exits 2) empty_base)) = with_dirs empty_base (tree_of dirs)"
proof -
  have h1: "ensure_structure dirs empty_base =
     (Inr (), \<lparr>files = with_dirs empty_base (tree_of dirs),
               trace = Print ''Creating project structure...'' # progress dirs\<rparr>)"
    by (rule ensure_structure_empty_base)
  have h2: "spawn (installer_exits 2) npm_install
      (files \<lparr>files = with_dirs empty_base (tree_of dirs),
               trace = Print ''Creating project structure...'' # progress dirs\<rparr>) =
      (Exited 2, with_dirs empty_base (tree_of dirs))"
    by (simp add: installer_exits_def)
  have h3: "(2::int) \<noteq> 0" by simp
  from install_failure_exit_1[OF h1 h2 h3] h2 show ?thesis by simp
qed

text \<open>
  C8 as stated does not hold: after a successful installation the script prints one more
  line of its own. Here at an empty working directory with an installer that returns 0.
\<close>

theorem silent_success_counterexample:
  "fst (setup_py (installer_exits 0) empty_base) = Completed \<and>
   after_run (trace (snd (setup_py (installer_exits 0) empty_base))) =
     [Print (newline @ ''Project setup complete!'')]"
  using script_proceed[OF ensure_structure_empty_base, of "installer_exits 0" dirs]
  by (simp add: setup_py_def installer_exits_def after_run_progress) (simp add: after_run_def)

text \<open>
  C8, amended. When the directories were created and the installer returns 0, the script
  runs to its end, its exit status is 0, and after it started the installer it prints
  exactly one line of its own: an empty line followed by \<open>Project setup complete!\<close>.
\<close>

theorem success_prints_completion:
  assumes "ensure_structure dirs t0 = (Inr (), w1)"
    and "fst (spawn E npm_install (files w1)) = Exited 0"
  shows "fst (setup_py E t0) = Completed \<and>
         exit_status (fst (setup_py E t0)) = 0 \<and>
         after_run (trace (snd (setup_py E t0))) = [Print (newline @ ''Project setup complete!'')]"
proof -
  obtain t where sp: "spawn E npm_install (files w1) = (Exited 0, t)"
    using assms(2) by (cases "spawn E npm_install (files w1)") auto
  from ensure_structure_trace[OF assms(1)] have
    tr: "trace w1 = Print ''Creating project structure...'' # progress dirs" by auto
  have run: "setup_py E t0 =
     (Completed,
      w1\<lparr>files := t, trace := trace w1 @
         [Print (newline @ ''Structure created successfully!''),
          Print (''Installing dependencies...'' @ newline),
          Run npm_install,
          Print (newline @ ''Project setup complete!'')]\<rparr>)"
    using script_proceed[OF assms(1), of E] sp by (simp add: setup_py_def)
  have "after_run (trace (snd (setup_py E t0))) = [Print (newline @ ''Project setup complete!'')]"
    unfolding run by (simp add: tr after_run_progress) (simp add: after_run_def)
  then show ?thesis by (simp add: run)
qed

text \<open>C8, amended, at an empty working directory with an installer that returns 0.\<close>

theorem success_prints_completion_witness:
  "fst (spawn (installer_exits 0) npm_install (with_dirs empty_base (tree_of dirs))) = Exited 0 \<and>
   exit_status (fst (setup_py (installer_exits 0) empty_base)) = 0 \<and>
   after_run (trace (snd (setup_py (installer_exits 0) empty_base))) \<noteq> []"
proof -
  have h1: "ensure_structure dirs empty_base =
     (Inr (), \<lparr>files = with_dirs empty_base (tree_of dirs),
               trace = Print ''Creating project structure...'' # progress dirs\<rparr>)"
    by (rule ensure_structure_empty_base)
  have h2: "fst (spawn (installer_exits 0) npm_install
      (files \<lparr>files = with_dirs empty_base (tree_of dirs),
               trace = Print ''Creating project structure...'' # progress dirs\<rparr>)) = Exited 0"
    by (simp add: installer_exits_def)
  from success_prints_completion[OF h1 h2] h2 show ?thesis by simp
qed

end
